theory Spec2Isabelle
  imports Complex_Main "HOL-Library.Word" "HOL-Library.Sublist"
begin

section \<open>Common types\<close>

type_synonym byte = "8 word"
type_synonym bytes = "byte list"
type_synonym uint32 = "32 word"

text \<open>
  A call either returns a value, or does not return because it waits for something that
  another goroutine has to do (a held mutex, a full or empty channel, a WaitGroup), or
  panics.
\<close>

datatype 'a outcome = Returns 'a | Blocks | Panics

text \<open>
  A \<open>time.Time\<close> is a number of nanoseconds; the zero value, for which \<open>IsZero\<close>
  holds, is \<open>0\<close>, and \<open>t.Before(u)\<close> is \<open>t < u\<close>.
\<close>

type_synonym time = int

text \<open>The errors the buffers return: \<open>syscall.EPIPE\<close>, \<open>ErrTimeout\<close>, \<open>io.EOF\<close>.\<close>

datatype err = EPIPE | ErrTimeout | EOF

section \<open>The dialer (dialer.go)\<close>

text \<open>
  Modelled from the spec: the constant \<open>maxID\<close> is declared in a file of the package
  that is not among the sources. Section 3 of the specification gives the largest stream
  identifier as \<open>2^24 - 1\<close> (three bytes).
\<close>

definition maxID :: uint32 where
  "maxID = 2 ^ 24 - 1"

text \<open>
  The session type and \<open>getOrCreateStream\<close> live outside the sources. A session
  corresponds one to one to the physical connection it was started on, so a session is
  identified by that connection; a stream is identified by its session and its id.
\<close>

datatype 'c session = Session 'c

datatype 'c stream = Stream "'c session" uint32

datatype error =
    DialError
  | SecretError
  | SendIVError
  | RecvIVError
  | ClientInitMsgError
  | DecryptCipherError
  | EncryptCipherError

text \<open>
  What the fallible calls made by \<open>startSession\<close> return when they are made:
  \<open>doDial\<close> yields a connection or fails, each of the others succeeds or fails.
\<close>

record 'c calls =
  doDial :: "'c option"
  newAESSecret :: bool
  newIV_send :: bool
  newIV_recv :: bool
  buildClientInitMsg :: bool
  newAESCipher_decrypt :: bool
  newAESCipher_encrypt :: bool

text \<open>
  The struct \<open>dialer\<close>. The fields \<open>doDial\<close>, \<open>pool\<close> and
  \<open>serverPublicKey\<close> are only handed on to the calls above. The field \<open>id\<close> is
  named \<open>id'\<close> here, and \<open>mx\<close> is \<open>True\<close> while the mutex is held.
\<close>

record 'c dialer =
  d_windowSize :: int
  maxStreamPerConn :: uint32
  current :: "'c session option"
  id' :: uint32
  mx :: bool

definition StreamDialer :: "int \<Rightarrow> uint32 \<Rightarrow> 'c dialer" where
  "StreamDialer windowSize maxStreamsPerConn =
     (let maxStreamsPerConn =
            (if maxStreamsPerConn \<le> 0 \<or> maxStreamsPerConn > maxID then maxID
             else maxStreamsPerConn)
      in \<lparr>d_windowSize = windowSize, maxStreamPerConn = maxStreamsPerConn,
          current = None, id' = 0, mx = False\<rparr>)"

text \<open>
  \<open>startSession\<close> is called with the mutex held. Only the branch for a failed
  \<open>doDial\<close> unlocks it; the other failure branches return with the mutex as it is.
\<close>

definition startSession :: "'c calls \<Rightarrow> 'c dialer \<Rightarrow> 'c dialer \<times> (error + 'c session)" where
  "startSession env d =
     (case doDial env of
        None \<Rightarrow> (d\<lparr>mx := False\<rparr>, Inl DialError)
      | Some conn \<Rightarrow>
          if \<not> newAESSecret env then (d, Inl SecretError)
          else if \<not> newIV_send env then (d, Inl SendIVError)
          else if \<not> newIV_recv env then (d, Inl RecvIVError)
          else if \<not> buildClientInitMsg env then (d, Inl ClientInitMsgError)
          else if \<not> newAESCipher_decrypt env then (d, Inl DecryptCipherError)
          else if \<not> newAESCipher_encrypt env then (d, Inl EncryptCipherError)
          else (d\<lparr>current := Some (Session conn)\<rparr>, Inr (Session conn)))"

text \<open>
  \<open>dial\<close>: \<open>Lock\<close> on a held mutex does not return. The local \<open>current\<close> is
  read before the exhaustion test, the counter is reset only on exhaustion, and the
  addition \<open>d.id++\<close> is that of a 32-bit unsigned integer. The test
  \<open>current == nil || idsExhausted\<close> is written as a case distinction on \<open>current\<close>.
\<close>

definition dial :: "'c calls \<Rightarrow> 'c dialer \<Rightarrow> 'c dialer \<times> (error + 'c stream) outcome" where
  "dial env d0 =
     (if mx d0 then (d0, Blocks)
      else
        let d = d0\<lparr>mx := True\<rparr>;
            cur = current d;
            idsExhausted = (id' d > maxStreamPerConn d);
            d = (if idsExhausted then d\<lparr>id' := 0\<rparr> else d);
            started = (case cur of
                         None \<Rightarrow> startSession env d
                       | Some s \<Rightarrow> if idsExhausted then startSession env d else (d, Inr s))
        in case started of
             (d, Inl err) \<Rightarrow> (d, Returns (Inl err))
           | (d, Inr s) \<Rightarrow>
               (d\<lparr>id' := id' d + 1, mx := False\<rparr>, Returns (Inr (Stream s (id' d)))))"


text \<open>An environment in which every call of \<open>startSession\<close> succeeds, on connection \<open>c\<close>.\<close>

definition connects :: "'c \<Rightarrow> 'c calls" where
  "connects c = \<lparr>doDial = Some c, newAESSecret = True, newIV_send = True, newIV_recv = True,
     buildClientInitMsg = True, newAESCipher_decrypt = True, newAESCipher_encrypt = True\<rparr>"



section \<open>The receive buffer (sendbuffer.go, second part)\<close>

text \<open>
  Modelled from the spec: the constant \<open>dataHeaderSize\<close> is declared outside the
  sources. A data frame starts with one byte of type, three of stream id and two of
  length (Section 3), six bytes in all.
\<close>

definition dataHeaderSize :: nat where
  "dataHeaderSize = 6"

text \<open>
  \<open>ackWithFrames\<close> is defined outside the sources. The frame it builds from the
  default header and the 16-bit count is kept as the pair of its arguments.
\<close>

datatype ack_frame = AckWithFrames bytes "16 word"

text \<open>
  The struct \<open>receiveBuffer\<close>. \<open>rb_in\<close> holds the frames queued in the channel
  \<open>in\<close>, oldest first, and \<open>ack\<close> the frames pushed on the channel \<open>ack\<close>,
  oldest first. \<open>close\<close> sets \<open>closed\<close> and closes \<open>in\<close> in one critical
  section, so \<open>rb_closed\<close> stands for both. The pool is not modelled.
\<close>

record receiveBuffer =
  rb_defaultHeader :: bytes
  rb_windowSize :: int
  ackInterval :: int
  unacked :: int
  rb_in :: "bytes list"
  ack :: "ack_frame list"
  poolable :: "bytes option"
  rb_current :: bytes
  rb_closed :: bool

text \<open>
  \<open>math.Ceil(float64(windowSize) / 10)\<close> is taken in exact arithmetic, which is what
  the floating-point computation gives for every window size a channel can be made with.
  \<open>make\<close> panics on a negative size.
\<close>

definition newReceiveBuffer :: "bytes \<Rightarrow> int \<Rightarrow> receiveBuffer outcome" where
  "newReceiveBuffer defaultHeader windowSize =
     (let ackInterval = \<lceil>real_of_int windowSize / 10\<rceil>
      in if windowSize < 0 then Panics
         else Returns \<lparr>rb_defaultHeader = defaultHeader, rb_windowSize = windowSize,
                ackInterval = ackInterval, unacked = 0, rb_in = [], ack = [],
                poolable = None, rb_current = [], rb_closed = False\<rparr>)"

definition submit :: "bytes \<Rightarrow> receiveBuffer \<Rightarrow> receiveBuffer outcome" where
  "submit frame buf =
     (if rb_closed buf then Returns buf
      else if int (length (rb_in buf)) < rb_windowSize buf
           then Returns (buf\<lparr>rb_in := rb_in buf @ [frame]\<rparr>)
      else Blocks)"

text \<open>\<open>onFrame\<close>: the slice \<open>frame[dataHeaderSize:]\<close> panics on a shorter frame.\<close>

definition onFrame :: "bytes \<Rightarrow> receiveBuffer \<Rightarrow> receiveBuffer option" where
  "onFrame frame buf =
     (if length frame < dataHeaderSize then None
      else Some (buf\<lparr>poolable := Some frame, rb_current := drop dataHeaderSize frame,
                     unacked := unacked buf + 1\<rparr>))"

text \<open>
  When \<open>read\<close> has copied nothing and finds nothing queued, it reads the clock and, unless
  the deadline is past, waits on the timer and on \<open>in\<close>. What the clock shows and which
  of the two comes first is given from outside, one item for each time \<open>read\<close> gets there.
  When the items are used up, the clock is taken to be before the deadline and the wait
  not to be over: the call has not returned. A frame submitted while \<open>read\<close> runs
  without waiting is seen by \<open>read\<close> as one queued before, so it is part of \<open>rb_in\<close>.
\<close>

datatype wait_event = TimerFires | FrameArrives bytes | InCloses

datatype wait = Wait time wait_event

text \<open>
  One pass through the body of the loop of \<open>read\<close>: it either leaves the loop, or goes
  round again. \<open>n\<close> is the room left in the caller's slice \<open>b\<close>, \<open>got\<close> the
  bytes copied into it so far (\<open>totalN\<close> is their number). \<open>None\<close> as error is
  \<open>nil\<close>. \<open>largeDeadline\<close> is a variable of the package set outside the sources.
\<close>

datatype read_pass =
    Leave receiveBuffer "(bytes \<times> err option) outcome"
  | Again receiveBuffer nat bytes time "wait list"

definition read_pass ::
  "time \<Rightarrow> receiveBuffer \<Rightarrow> nat \<Rightarrow> bytes \<Rightarrow> time \<Rightarrow> wait list \<Rightarrow> read_pass" where
  "read_pass largeDeadline buf n got deadline ws =
     (let k = min n (length (rb_current buf));
          got = got @ take k (rb_current buf);
          buf = buf\<lparr>rb_current := drop k (rb_current buf)\<rparr>
      in if k = n then Leave buf (Returns (got, None))
         else
           (case rb_in buf of
              frame # rest \<Rightarrow>
                (case onFrame frame (buf\<lparr>rb_in := rest\<rparr>) of
                   None \<Rightarrow> Leave (buf\<lparr>rb_in := rest\<rparr>) Panics
                 | Some buf' \<Rightarrow> Again buf' (n - k) got deadline ws)
            | [] \<Rightarrow>
                if rb_closed buf then Leave buf (Returns (got, Some EOF))
                else if length got > 0 then Leave buf (Returns (got, None))
                else
                  (case ws of
                     [] \<Rightarrow> Leave buf Blocks
                   | Wait now ev # ws' \<Rightarrow>
                       if deadline \<noteq> 0 \<and> deadline < now then Leave buf (Returns (got, None))
                       else
                         (case ev of
                            TimerFires \<Rightarrow> Leave buf (Returns (got, Some ErrTimeout))
                          | InCloses \<Rightarrow> Leave (buf\<lparr>rb_closed := True\<rparr>) (Returns (got, Some EOF))
                          | FrameArrives frame \<Rightarrow>
                              (case onFrame frame buf of
                                 None \<Rightarrow> Leave buf Panics
                               | Some buf' \<Rightarrow>
                                   Again buf' (n - k) got
                                     (if deadline = 0 then largeDeadline else deadline) ws')))))"

lemma read_pass_Again:
  assumes "read_pass ld buf n got dl ws = Again buf' n' got' dl' ws'"
  shows "length (rb_in buf') + length ws' < length (rb_in buf) + length ws
    \<and> ack buf' = ack buf \<and> ackInterval buf' = ackInterval buf
    \<and> rb_defaultHeader buf' = rb_defaultHeader buf \<and> unacked buf' = unacked buf + 1"
proof (cases "rb_in buf")
  case Nil
  with assms show ?thesis
    by (auto simp add: read_pass_def Let_def onFrame_def
        split: if_splits list.splits wait.splits wait_event.splits)
next
  case (Cons frame rest)
  with assms show ?thesis
    by (auto simp add: read_pass_def Let_def onFrame_def split: if_splits)
qed


function read_loop ::
  "time \<Rightarrow> receiveBuffer \<Rightarrow> nat \<Rightarrow> bytes \<Rightarrow> time \<Rightarrow> wait list
     \<Rightarrow> receiveBuffer \<times> (bytes \<times> err option) outcome" where
  "read_loop largeDeadline buf n got deadline ws =
     (case read_pass largeDeadline buf n got deadline ws of
        Leave buf' r \<Rightarrow> (buf', r)
      | Again buf' n' got' deadline' ws' \<Rightarrow> read_loop largeDeadline buf' n' got' deadline' ws')"
  by pat_completeness auto
termination
  by (relation "measure (\<lambda>(ld, buf, n, got, dl, ws). length (rb_in buf) + length ws)")
    (auto dest: read_pass_Again)

text \<open>The deferred function of \<open>read\<close>; it runs when \<open>read\<close> returns and when it panics.\<close>

definition read_deferred :: "receiveBuffer \<Rightarrow> receiveBuffer" where
  "read_deferred buf =
     (if unacked buf \<ge> ackInterval buf
      then buf\<lparr>ack := ack buf @ [AckWithFrames (rb_defaultHeader buf) (word_of_int (unacked buf))],
               unacked := 0\<rparr>
      else buf)"

definition read ::
  "time \<Rightarrow> receiveBuffer \<Rightarrow> nat \<Rightarrow> time \<Rightarrow> wait list
     \<Rightarrow> receiveBuffer \<times> (bytes \<times> err option) outcome" where
  "read largeDeadline buf n deadline ws =
     (case read_loop largeDeadline buf n [] deadline ws of
        (buf', Blocks) \<Rightarrow> (buf', Blocks)
      | (buf', r) \<Rightarrow> (read_deferred buf', r))"

definition rb_close :: "receiveBuffer \<Rightarrow> receiveBuffer" where
  "rb_close buf = (if \<not> rb_closed buf then buf\<lparr>rb_closed := True\<rparr> else buf)"

section \<open>The send buffer (sendbuffer.go, first part)\<close>

text \<open>A Go \<open>[]byte\<close>: \<open>None\<close> is the \<open>nil\<close> slice.\<close>

type_synonym slice = "bytes option"

fun len :: "slice \<Rightarrow> nat" where
  "len None = 0"
| "len (Some b) = length b"

text \<open>
  A \<open>time.Timer\<close>: \<open>Running\<close> when set and not yet expired; \<open>Fired\<close> when expired
  with its value waiting in the channel \<open>C\<close>; \<open>Stopped\<close> when stopped, or expired
  with the value taken: then \<open>C\<close> is empty and stays so until \<open>Reset\<close>.
  \<open>Stop\<close> is true only for a running timer. The statement
  \<open>if !t.Stop() { <-t.C }\<close> therefore leaves a running or fired timer stopped, and
  never ends on a stopped one: \<open>Stop\<close> on a timer stopped before is false, and
  nothing arrives on \<open>C\<close> before the next \<open>Reset\<close>.
\<close>

datatype timer = Running | Fired | Stopped

fun stop_and_drain :: "timer \<Rightarrow> timer option" where
  "stop_and_drain Running = Some Stopped"
| "stop_and_drain Fired = Some Stopped"
| "stop_and_drain Stopped = None"

text \<open>
  The struct \<open>sendBuffer\<close>. \<open>sb_in\<close> holds the slices queued in the channel \<open>in\<close>
  (capacity \<open>sb_windowSize\<close>), oldest first; \<open>closeRequested\<close> is the content of the
  channel of capacity 1; \<open>closed\<close> is the counter of the WaitGroup. \<open>closing\<close> is set
  and \<open>in\<close> is closed in one critical section of \<open>muClosing\<close>, and \<open>send\<close> reads
  under the same lock, so \<open>closing\<close> stands for both. The window is outside the sources.
\<close>

record sendBuffer =
  sb_defaultHeader :: bytes
  sb_windowSize :: nat
  sb_in :: "slice list"
  closeRequested :: "bool option"
  closing :: bool
  closed :: nat
  writeTimer :: timer

definition newSendBuffer :: "bytes \<Rightarrow> nat \<Rightarrow> sendBuffer" where
  "newSendBuffer defaultHeader windowSize =
     \<lparr>sb_defaultHeader = defaultHeader, sb_windowSize = windowSize, sb_in = [],
      closeRequested = None, closing = False, closed = 1, writeTimer = Running\<rparr>"

text \<open>
  \<open>doSend\<close>. A send on the full channel \<open>in\<close> waits. In the \<open>select\<close> the caller
  is given which case is taken: the channel admits the slice, or the timer expires first.
\<close>

datatype select_send = InAdmits | TimerExpires

definition doSend ::
  "slice \<Rightarrow> time \<Rightarrow> time \<Rightarrow> select_send \<Rightarrow> sendBuffer \<Rightarrow> sendBuffer \<times> (nat \<times> err option) outcome" where
  "doSend b writeDeadline now sel buf =
     (if closing buf then (buf, Returns (0, Some EPIPE))
      else if writeDeadline = 0 then
        (if length (sb_in buf) < sb_windowSize buf
         then (buf\<lparr>sb_in := sb_in buf @ [b]\<rparr>, Returns (len b, None))
         else (buf, Blocks))
      else if writeDeadline < now then (buf, Returns (0, Some ErrTimeout))
      else
        (case stop_and_drain (writeTimer buf) of
           None \<Rightarrow> (buf, Blocks)
         | Some t \<Rightarrow>
             (case sel of
                InAdmits \<Rightarrow>
                  if length (sb_in buf) < sb_windowSize buf
                  then (buf\<lparr>writeTimer := Running, sb_in := sb_in buf @ [b]\<rparr>,
                        Returns (len b, None))
                  else (buf\<lparr>writeTimer := Running\<rparr>, Blocks)
              | TimerExpires \<Rightarrow> (buf\<lparr>writeTimer := Stopped\<rparr>, Returns (0, Some ErrTimeout)))))"

text \<open>\<open>send\<close> is \<open>doSend\<close> under the read lock of \<open>muClosing\<close>.\<close>

definition send ::
  "slice \<Rightarrow> time \<Rightarrow> time \<Rightarrow> select_send \<Rightarrow> sendBuffer \<Rightarrow> sendBuffer \<times> (nat \<times> err option) outcome" where
  "send b writeDeadline now sel buf = doSend b writeDeadline now sel buf"

text \<open>
  \<open>close\<close>, up to \<open>buf.closed.Wait()\<close>: the buffer afterwards, and whether \<open>Wait\<close> is
  reached. \<open>Wait\<close> returns when the counter is zero.
\<close>

definition close_begin :: "bool \<Rightarrow> sendBuffer \<Rightarrow> sendBuffer \<times> bool" where
  "close_begin sendRST buf =
     (let buf = (case closeRequested buf of
                   None \<Rightarrow> buf\<lparr>closeRequested := Some sendRST\<rparr>
                 | Some _ \<Rightarrow> buf)
      in case stop_and_drain (writeTimer buf) of
           None \<Rightarrow> (buf, False)
         | Some t \<Rightarrow> (buf\<lparr>writeTimer := t\<rparr>, True))"

definition sb_close :: "bool \<Rightarrow> sendBuffer \<Rightarrow> sendBuffer \<times> unit outcome" where
  "sb_close sendRST buf =
     (case close_begin sendRST buf of
        (buf', False) \<Rightarrow> (buf', Blocks)
      | (buf', True) \<Rightarrow> if closed buf' = 0 then (buf', Returns ()) else (buf', Blocks))"

subsection \<open>The send loop\<close>

text \<open>
  Modelled from the spec: \<open>withFrameType\<close> and \<open>frameTypeRST\<close> are declared outside the
  sources. The header starts with the type byte (Section 3), which is overwritten; the
  type of an RST frame is 2.
\<close>

definition frameTypeRST :: byte where
  "frameTypeRST = 2"

definition withFrameType :: "bytes \<Rightarrow> byte \<Rightarrow> bytes" where
  "withFrameType header frameType = header[0 := frameType]"

text \<open>
  \<open>sendLoop\<close> runs in a goroutine of its own, next to the callers of \<open>send\<close> and
  \<open>close\<close> and to the goroutine started by \<open>signalClose\<close>. It is modelled as a
  machine: the state holds the buffer, the place where the loop stands and its locals;
  an action is one step of one of the goroutines.

  The places: \<open>Select\<close>, the outer \<open>select\<close>; \<open>AwaitWindow frame\<close>, the
  \<open>select\<close> on \<open>windowAvailable\<close> and \<open>closeRequested\<close>; \<open>AwaitWindowClosing frame\<close>,
  the \<open>select\<close> on \<open>windowAvailable\<close> and \<open>closeTimedOut\<close>; \<open>Write b\<close>, inside
  \<open>write(append(frame, buf.defaultHeader...))\<close>; \<open>WriteRST b\<close>, inside the
  \<open>write\<close> of the deferred function; \<open>Exited\<close>, after \<open>buf.closed.Done()\<close>.
\<close>

datatype place =
    Select
  | AwaitWindow bytes
  | AwaitWindowClosing bytes
  | Write bytes
  | WriteRST bytes
  | Exited

text \<open>
  The goroutine of \<open>signalClose\<close>: not started; started; past
  \<open>closing = true; close(buf.in)\<close>; past \<open>close(closeTimedOut)\<close>.
\<close>

datatype closer = NotStarted | Started | Sealed | TimedOut

text \<open>
  \<open>out\<close> lists the slices the channel \<open>out\<close> has accepted, oldest first. \<open>taken\<close>
  is a history of the loop: the slices other than \<open>nil\<close> it has received from \<open>in\<close>.
\<close>

record sender =
  sbuf :: sendBuffer
  place :: place
  sendRST :: bool
  closer :: closer
  out :: "bytes list"
  taken :: "bytes list"

definition newSender :: "bytes \<Rightarrow> nat \<Rightarrow> sender" where
  "newSender defaultHeader windowSize =
     \<lparr>sbuf = newSendBuffer defaultHeader windowSize, place = Select, sendRST = False,
      closer = NotStarted, out = [], taken = []\<rparr>"

definition signalClose :: "sender \<Rightarrow> sender" where
  "signalClose s = (if closer s = NotStarted then s\<lparr>closer := Started\<rparr> else s)"

text \<open>
  \<open>finish\<close> is the end of the deferred function, \<open>buf.closed.Done()\<close>, and
  \<open>leave\<close> a \<open>return\<close> from the loop, which enters the deferred function.
\<close>

definition finish :: "sender \<Rightarrow> sender" where
  "finish s = s\<lparr>place := Exited, sbuf := (sbuf s)\<lparr>closed := closed (sbuf s) - 1\<rparr>\<rparr>"

definition leave :: "sender \<Rightarrow> sender" where
  "leave s =
     (if sendRST s
      then s\<lparr>place := WriteRST (withFrameType (sb_defaultHeader (sbuf s)) frameTypeRST)\<rparr>
      else finish s)"

text \<open>
  The actions. Of the loop: a receive from \<open>in\<close>, from \<open>closeRequested\<close>, from
  \<open>closeTimedOut\<close>, from \<open>windowAvailable\<close>, and a send on \<open>out\<close>. Of the
  goroutine of \<open>signalClose\<close>: \<open>Seal\<close> and \<open>TimeOut\<close>. \<open>TimerFire\<close>: the write
  timer expires. \<open>CallSend\<close>: a call of \<open>send\<close> that returns. \<open>CallClose\<close>: a call of
  \<open>close\<close>, up to \<open>Wait\<close>.
\<close>

datatype action =
    RecvIn
  | RecvCloseRequested
  | RecvCloseTimedOut
  | RecvWindowAvailable
  | SendOut
  | Seal
  | TimeOut
  | TimerFire
  | CallSend slice time time select_send
  | CallClose bool

text \<open>
  A slice other than \<open>nil\<close> comes from \<open>in\<close> with \<open>open\<close> true, so after writing
  it the test \<open>!open\<close> fails and the loop goes round. \<open>None\<close>: the action cannot
  happen in this state.
\<close>

fun recvIn :: "sender \<Rightarrow> sender option" where
  "recvIn s =
     (case place s of
        Select \<Rightarrow>
          (case sb_in (sbuf s) of
             Some frame # rest \<Rightarrow>
               Some (s\<lparr>sbuf := (sbuf s)\<lparr>sb_in := rest\<rparr>, place := AwaitWindow frame,
                       taken := taken s @ [frame]\<rparr>)
           | None # rest \<Rightarrow> Some (s\<lparr>sbuf := (sbuf s)\<lparr>sb_in := rest\<rparr>\<rparr>)
           | [] \<Rightarrow> if closing (sbuf s) then Some (leave s) else None)
      | _ \<Rightarrow> None)"

fun recvCloseRequested :: "sender \<Rightarrow> sender option" where
  "recvCloseRequested s =
     (case closeRequested (sbuf s) of
        None \<Rightarrow> None
      | Some b \<Rightarrow>
          (case place s of
             Select \<Rightarrow>
               Some (signalClose (s\<lparr>sbuf := (sbuf s)\<lparr>closeRequested := None\<rparr>, sendRST := b\<rparr>))
           | AwaitWindow frame \<Rightarrow>
               Some (signalClose (s\<lparr>sbuf := (sbuf s)\<lparr>closeRequested := None\<rparr>, sendRST := b,
                                     place := AwaitWindowClosing frame\<rparr>))
           | _ \<Rightarrow> None))"

fun recvCloseTimedOut :: "sender \<Rightarrow> sender option" where
  "recvCloseTimedOut s =
     (if closer s = TimedOut then
        (case place s of
           Select \<Rightarrow> Some (leave s)
         | AwaitWindowClosing frame \<Rightarrow> Some (leave s)
         | Write b \<Rightarrow> Some (s\<lparr>place := Select\<rparr>)
         | WriteRST b \<Rightarrow> Some (finish s)
         | _ \<Rightarrow> None)
      else None)"

fun recvWindowAvailable :: "sender \<Rightarrow> sender option" where
  "recvWindowAvailable s =
     (case place s of
        AwaitWindow frame \<Rightarrow> Some (s\<lparr>place := Write (frame @ sb_defaultHeader (sbuf s))\<rparr>)
      | AwaitWindowClosing frame \<Rightarrow> Some (s\<lparr>place := Write (frame @ sb_defaultHeader (sbuf s))\<rparr>)
      | _ \<Rightarrow> None)"

fun sendOut :: "sender \<Rightarrow> sender option" where
  "sendOut s =
     (case place s of
        Write b \<Rightarrow> Some (s\<lparr>out := out s @ [b], place := Select\<rparr>)
      | WriteRST b \<Rightarrow> Some (finish (s\<lparr>out := out s @ [b]\<rparr>))
      | _ \<Rightarrow> None)"

fun step :: "action \<Rightarrow> sender \<Rightarrow> sender option" where
  "step RecvIn s = recvIn s"
| "step RecvCloseRequested s = recvCloseRequested s"
| "step RecvCloseTimedOut s = recvCloseTimedOut s"
| "step RecvWindowAvailable s = recvWindowAvailable s"
| "step SendOut s = sendOut s"
| "step Seal s =
     (if closer s = Started
      then Some (s\<lparr>closer := Sealed, sbuf := (sbuf s)\<lparr>closing := True\<rparr>\<rparr>)
      else None)"
| "step TimeOut s = (if closer s = Sealed then Some (s\<lparr>closer := TimedOut\<rparr>) else None)"
| "step TimerFire s =
     (if writeTimer (sbuf s) = Running
      then Some (s\<lparr>sbuf := (sbuf s)\<lparr>writeTimer := Fired\<rparr>\<rparr>)
      else None)"
| "step (CallSend b writeDeadline now sel) s =
     (case send b writeDeadline now sel (sbuf s) of
        (buf', Returns r) \<Rightarrow> Some (s\<lparr>sbuf := buf'\<rparr>)
      | _ \<Rightarrow> None)"
| "step (CallClose r) s = Some (s\<lparr>sbuf := fst (close_begin r (sbuf s))\<rparr>)"

fun run :: "action list \<Rightarrow> sender \<Rightarrow> sender option" where
  "run [] s = Some s"
| "run (a # as) s = (case step a s of None \<Rightarrow> None | Some s' \<Rightarrow> run as s')"

section \<open>Example states and the invariant of the send loop\<close>

text \<open>
  A receive buffer made for a window of 4 frames, and the same with one queued data frame
  of stream 7 carrying the two payload bytes \<open>0x41 0x42\<close>.
\<close>

definition frame_AB :: bytes where
  "frame_AB = [0, 0, 0, 7, 0, 2, 65, 66]"

definition rb_empty :: receiveBuffer where
  "rb_empty = \<lparr>rb_defaultHeader = [0, 0, 0, 7], rb_windowSize = 4, ackInterval = 1,
     unacked = 0, rb_in = [], ack = [], poolable = None, rb_current = [], rb_closed = False\<rparr>"

definition rb_queued :: receiveBuffer where
  "rb_queued = rb_empty\<lparr>rb_in := [frame_AB]\<rparr>"

text \<open>
  The sender of stream 7 with a window of 4 after \<open>close(true)\<close>, once the loop has
  taken the request, found \<open>in\<close> closed and empty, written the RST frame and exited.
\<close>

definition sender_closed :: sender where
  "sender_closed =
     \<lparr>sbuf = \<lparr>sb_defaultHeader = [0, 0, 0, 7], sb_windowSize = 4, sb_in = [],
              closeRequested = None, closing = True, closed = 0, writeTimer = Stopped\<rparr>,
      place = Exited, sendRST = True, closer = Sealed, out = [[2, 0, 0, 7]], taken = []\<rparr>"

text \<open>
  The invariant of the machine, by the place of the loop. \<open>ou\<close> is what \<open>out\<close> has
  accepted, \<open>tk\<close> the slices taken from \<open>in\<close>, \<open>r\<close> the local \<open>sendRST\<close>: the
  frames accepted are payloads taken earlier, in the order taken and each followed by the
  header; the payload being handled is the last one taken; an RST frame comes last, after
  the loop has exited.
\<close>

fun place_inv :: "bytes \<Rightarrow> place \<Rightarrow> bytes list \<Rightarrow> bytes list \<Rightarrow> bool \<Rightarrow> bool" where
  "place_inv hdr Select tk ou r = (\<exists>ps. subseq ps tk \<and> ou = map (\<lambda>p. p @ hdr) ps)"
| "place_inv hdr (AwaitWindow p) tk ou r =
     (\<exists>ps tk'. tk = tk' @ [p] \<and> subseq ps tk' \<and> ou = map (\<lambda>p. p @ hdr) ps)"
| "place_inv hdr (AwaitWindowClosing p) tk ou r =
     (\<exists>ps tk'. tk = tk' @ [p] \<and> subseq ps tk' \<and> ou = map (\<lambda>p. p @ hdr) ps)"
| "place_inv hdr (Write b) tk ou r =
     (\<exists>ps tk' p. b = p @ hdr \<and> tk = tk' @ [p] \<and> subseq ps tk' \<and> ou = map (\<lambda>p. p @ hdr) ps)"
| "place_inv hdr (WriteRST b) tk ou r =
     (b = withFrameType hdr frameTypeRST \<and> r
      \<and> (\<exists>ps. subseq ps tk \<and> ou = map (\<lambda>p. p @ hdr) ps))"
| "place_inv hdr Exited tk ou r =
     (\<exists>ps. subseq ps tk
        \<and> (ou = map (\<lambda>p. p @ hdr) ps
           \<or> r \<and> ou = map (\<lambda>p. p @ hdr) ps @ [withFrameType hdr frameTypeRST]))"

definition sender_inv :: "bytes \<Rightarrow> sender \<Rightarrow> bool" where
  "sender_inv hdr s \<longleftrightarrow> sb_defaultHeader (sbuf s) = hdr
     \<and> place_inv hdr (place s) (taken s) (out s) (sendRST s)"

section \<open>Properties of the dialer\<close>

lemma maxID_unat: "unat maxID = 2 ^ 24 - 1"
  by (simp add: maxID_def)



lemma dial_handshake_failure_locked:
  assumes "\<not> mx d" "current d = None \<or> id' d > maxStreamPerConn d" "doDial env \<noteq> None"
    and "\<not> (newAESSecret env \<and> newIV_send env \<and> newIV_recv env \<and> buildClientInitMsg env
            \<and> newAESCipher_decrypt env \<and> newAESCipher_encrypt env)"
  shows "mx (fst (dial env d)) \<and> (\<exists>e. snd (dial env d) = Returns (Inl e))"
  using assms
  by (cases "current d") (auto simp add: dial_def Let_def startSession_def)

lemma dial_connector_failure_unlocked:
  assumes "\<not> mx d" "current d = None \<or> id' d > maxStreamPerConn d" "doDial env = None"
  shows "\<not> mx (fst (dial env d)) \<and> snd (dial env d) = Returns (Inl DialError)"
  using assms
  by (cases "current d") (auto simp add: dial_def Let_def startSession_def)

text \<open>
  Claim C10. \<open>StreamDialer\<close> replaces a \<open>maxStreamsPerConn\<close> of zero or above
  \<open>maxID = 2^24 - 1\<close> by \<open>maxID\<close>, so the dialer it builds is the one built for
  \<open>maxID\<close>; a value from 1 to \<open>maxID\<close> is kept as given.
\<close>

theorem StreamDialer_clamps:
  "(m \<le> 0 \<or> m > maxID \<longrightarrow>
      (StreamDialer w m :: 'c dialer) = StreamDialer w maxID
      \<and> unat (maxStreamPerConn (StreamDialer w m :: 'c dialer)) = 2 ^ 24 - 1)
   \<and> (1 \<le> m \<and> m \<le> maxID \<longrightarrow> maxStreamPerConn (StreamDialer w m :: 'c dialer) = m)"
proof (intro conjI impI)
  assume "m \<le> 0 \<or> m > maxID"
  then show "(StreamDialer w m :: 'c dialer) = StreamDialer w maxID"
    by (auto simp add: StreamDialer_def)
  then show "unat (maxStreamPerConn (StreamDialer w m :: 'c dialer)) = 2 ^ 24 - 1"
    by (simp add: StreamDialer_def maxID_def)
next
  assume "1 \<le> m \<and> m \<le> maxID"
  then have "\<not> m \<le> 0" "\<not> m > maxID"
    by (auto simp add: word_le_nat_alt word_less_nat_alt)
  then show "maxStreamPerConn (StreamDialer w m :: 'c dialer) = m"
    by (simp add: StreamDialer_def)
qed

theorem StreamDialer_clamps_witness:
  "((0::uint32) \<le> 0 \<or> 0 > maxID) \<and> (1 \<le> (5::uint32) \<and> 5 \<le> maxID)
   \<and> (16777216 \<le> (0::uint32) \<or> 16777216 > maxID)
   \<and> (StreamDialer 25 0 :: nat dialer) = StreamDialer 25 maxID
   \<and> (StreamDialer 25 16777216 :: nat dialer) = StreamDialer 25 maxID
   \<and> maxStreamPerConn (StreamDialer 25 5 :: nat dialer) = 5"
proof -
  have a: "(0::uint32) \<le> 0 \<or> 0 > maxID" by simp
  have b: "1 \<le> (5::uint32) \<and> 5 \<le> maxID" by (simp add: maxID_def)
  have c: "16777216 \<le> (0::uint32) \<or> 16777216 > maxID" by (simp add: maxID_def)
  show ?thesis
    using a b c
      StreamDialer_clamps [of 0 25, where 'c = nat]
      StreamDialer_clamps [of 5 25, where 'c = nat]
      StreamDialer_clamps [of 16777216 25, where 'c = nat]
    by simp
qed

text \<open>
  Claim C4. The claim asks that no return of \<open>dial\<close> leaves the mutex held. When
  \<open>newAESSecret\<close> fails, \<open>startSession\<close> returns without unlocking and so does
  \<open>dial\<close>: the mutex stays held and the next \<open>dial\<close> never returns. The branch for
  a failed connector does unlock.
\<close>

theorem dial_secret_failure_keeps_mutex:
  "dial ((connects (1::nat))\<lparr>newAESSecret := False\<rparr>) (StreamDialer 25 2)
     = ((StreamDialer 25 2)\<lparr>mx := True\<rparr>, Returns (Inl SecretError))
   \<and> dial (connects 2) ((StreamDialer 25 2)\<lparr>mx := True\<rparr>)
     = ((StreamDialer 25 2)\<lparr>mx := True\<rparr>, Blocks)
   \<and> dial ((connects (1::nat))\<lparr>doDial := None\<rparr>) (StreamDialer 25 2)
     = (StreamDialer 25 2, Returns (Inl DialError))"
  by (simp add: dial_def Let_def startSession_def connects_def StreamDialer_def maxID_def)




section \<open>Properties of the receive buffer\<close>






text \<open>
  Claim C5. The claim asks that an ACK never counts a frame that is still partly held as
  the current payload. \<open>onFrame\<close> counts a frame when it is taken from the queue: with a
  window of 4 (ack interval 1) and one queued frame of two payload bytes, a \<open>read\<close> into
  a slice of one byte returns the first byte and pushes an ACK with count 1, while the
  second byte of that frame is still held in \<open>current\<close>.
\<close>

theorem read_acks_partly_read_frame:
  "newReceiveBuffer [0, 0, 0, 7] 4 = Returns rb_empty
   \<and> submit frame_AB rb_empty = Returns rb_queued
   \<and> read 1000 rb_queued 1 0 []
       = (rb_empty\<lparr>ack := [AckWithFrames [0, 0, 0, 7] 1], poolable := Some frame_AB,
                      rb_current := [66]\<rparr>,
          Returns ([65], None))"
proof (intro conjI)
  show "newReceiveBuffer [0, 0, 0, 7] 4 = Returns rb_empty"
    by (simp add: newReceiveBuffer_def rb_empty_def)
  show "submit frame_AB rb_empty = Returns rb_queued"
    by (simp add: submit_def rb_empty_def rb_queued_def)
  show "read 1000 rb_queued 1 0 []
       = (rb_empty\<lparr>ack := [AckWithFrames [0, 0, 0, 7] 1], poolable := Some frame_AB,
                      rb_current := [66]\<rparr>,
          Returns ([65], None))"
    by code_simp
qed

section \<open>Properties of the send buffer\<close>

lemma subseq_snoc_drop: "subseq ps tk \<Longrightarrow> subseq ps (tk @ [p])"
  by (rule list_emb_prefix)

lemma sender_inv_cong:
  assumes "sender_inv hdr s" "sb_defaultHeader (sbuf s') = sb_defaultHeader (sbuf s)"
    "place s' = place s" "taken s' = taken s" "out s' = out s" "sendRST s' = sendRST s"
  shows "sender_inv hdr s'"
  using assms by (simp add: sender_inv_def)

lemma sender_inv_init: "sender_inv hdr (newSender hdr w)"
  by (simp add: sender_inv_def newSender_def newSendBuffer_def)

lemma sender_inv_finish:
  assumes "sb_defaultHeader (sbuf s) = hdr" "subseq ps (taken s)"
    and "out s = map (\<lambda>p. p @ hdr) ps
         \<or> sendRST s \<and> out s = map (\<lambda>p. p @ hdr) ps @ [withFrameType hdr frameTypeRST]"
  shows "sender_inv hdr (finish s)"
  using assms by (auto simp add: sender_inv_def finish_def)

lemma sender_inv_leave:
  assumes "sb_defaultHeader (sbuf s) = hdr" "subseq ps (taken s)" "out s = map (\<lambda>p. p @ hdr) ps"
  shows "sender_inv hdr (leave s)"
  using assms by (auto simp add: sender_inv_def leave_def finish_def)

lemma sender_inv_recvIn:
  assumes "sender_inv hdr s" "recvIn s = Some s'"
  shows "sender_inv hdr s'"
proof (cases "place s")
  case Select
  from assms(1) Select obtain ps where h: "sb_defaultHeader (sbuf s) = hdr"
    and ps: "subseq ps (taken s)" "out s = map (\<lambda>p. p @ hdr) ps"
    by (auto simp add: sender_inv_def)
  show ?thesis
  proof (cases "sb_in (sbuf s)")
    case Nil
    with assms(2) Select have "s' = leave s"
      by (simp split: if_splits)
    with sender_inv_leave [OF h ps] show ?thesis by simp
  next
    case (Cons f rest)
    show ?thesis
    proof (cases f)
      case None
      with assms(2) Select Cons have "s' = s\<lparr>sbuf := (sbuf s)\<lparr>sb_in := rest\<rparr>\<rparr>"
        by simp
      with h ps Select show ?thesis
        by (auto simp add: sender_inv_def)
    next
      case (Some frame)
      with assms(2) Select Cons
      have "s' = s\<lparr>sbuf := (sbuf s)\<lparr>sb_in := rest\<rparr>, place := AwaitWindow frame,
                     taken := taken s @ [frame]\<rparr>"
        by simp
      with h ps show ?thesis
        by (auto simp add: sender_inv_def)
    qed
  qed
qed (use assms(2) in simp_all)

lemma sender_inv_signalClose: "sender_inv hdr s \<Longrightarrow> sender_inv hdr (signalClose s)"
  by (erule sender_inv_cong) (simp_all add: signalClose_def)

lemma sender_inv_recvCloseRequested:
  assumes "sender_inv hdr s" "recvCloseRequested s = Some s'"
  shows "sender_inv hdr s'"
proof -
  from assms(2) obtain b where b: "closeRequested (sbuf s) = Some b"
    by (cases "closeRequested (sbuf s)") simp_all
  show ?thesis
  proof (cases "place s")
    case Select
    with assms(2) b
    have "s' = signalClose (s\<lparr>sbuf := (sbuf s)\<lparr>closeRequested := None\<rparr>, sendRST := b\<rparr>)"
      by simp
    moreover from assms(1) Select
    have "sender_inv hdr (s\<lparr>sbuf := (sbuf s)\<lparr>closeRequested := None\<rparr>, sendRST := b\<rparr>)"
      by (simp add: sender_inv_def)
    ultimately show ?thesis by (simp add: sender_inv_signalClose)
  next
    case (AwaitWindow frame)
    with assms(2) b
    have "s' = signalClose (s\<lparr>sbuf := (sbuf s)\<lparr>closeRequested := None\<rparr>, sendRST := b,
                                 place := AwaitWindowClosing frame\<rparr>)"
      by simp
    moreover from assms(1) AwaitWindow
    have "sender_inv hdr (s\<lparr>sbuf := (sbuf s)\<lparr>closeRequested := None\<rparr>, sendRST := b,
                             place := AwaitWindowClosing frame\<rparr>)"
      by (simp add: sender_inv_def)
    ultimately show ?thesis by (simp add: sender_inv_signalClose)
  qed (use assms(2) b in simp_all)
qed

lemma sender_inv_recvCloseTimedOut:
  assumes "sender_inv hdr s" "recvCloseTimedOut s = Some s'"
  shows "sender_inv hdr s'"
proof (cases "place s")
  case Select
  with assms(2) have s': "s' = leave s" by (simp split: if_splits)
  from assms(1) Select obtain ps where "sb_defaultHeader (sbuf s) = hdr"
    "subseq ps (taken s)" "out s = map (\<lambda>p. p @ hdr) ps"
    by (auto simp add: sender_inv_def)
  then show ?thesis unfolding s' by (rule sender_inv_leave)
next
  case (AwaitWindowClosing frame)
  with assms(2) have s': "s' = leave s" by (simp split: if_splits)
  from assms(1) AwaitWindowClosing obtain ps tk where "sb_defaultHeader (sbuf s) = hdr"
    "taken s = tk @ [frame]" "subseq ps tk" "out s = map (\<lambda>p. p @ hdr) ps"
    by (auto simp add: sender_inv_def)
  then have "sb_defaultHeader (sbuf s) = hdr" "subseq ps (taken s)"
    "out s = map (\<lambda>p. p @ hdr) ps"
    by (simp_all add: subseq_snoc_drop)
  then show ?thesis unfolding s' by (rule sender_inv_leave)
next
  case (Write b)
  with assms(2) have s': "s' = s\<lparr>place := Select\<rparr>" by (simp split: if_splits)
  from assms(1) Write obtain ps tk p where "sb_defaultHeader (sbuf s) = hdr"
    "taken s = tk @ [p]" "subseq ps tk" "out s = map (\<lambda>p. p @ hdr) ps"
    by (auto simp add: sender_inv_def)
  then have "sb_defaultHeader (sbuf s) = hdr" "subseq ps (taken s)"
    "out s = map (\<lambda>p. p @ hdr) ps"
    by (simp_all add: subseq_snoc_drop)
  then show ?thesis unfolding s' by (auto simp add: sender_inv_def)
next
  case (WriteRST b)
  with assms(2) have s': "s' = finish s" by (simp split: if_splits)
  from assms(1) WriteRST obtain ps where "sb_defaultHeader (sbuf s) = hdr"
    "subseq ps (taken s)" "out s = map (\<lambda>p. p @ hdr) ps"
    by (auto simp add: sender_inv_def)
  then show ?thesis unfolding s' by (intro sender_inv_finish [where ps = ps]) simp_all
qed (use assms(2) in \<open>simp_all split: if_splits\<close>)

lemma sender_inv_recvWindowAvailable:
  assumes "sender_inv hdr s" "recvWindowAvailable s = Some s'"
  shows "sender_inv hdr s'"
proof (cases "place s")
  case (AwaitWindow frame)
  with assms(2) have s': "s' = s\<lparr>place := Write (frame @ sb_defaultHeader (sbuf s))\<rparr>"
    by simp
  from assms(1) AwaitWindow show ?thesis unfolding s' by (auto simp add: sender_inv_def)
next
  case (AwaitWindowClosing frame)
  with assms(2) have s': "s' = s\<lparr>place := Write (frame @ sb_defaultHeader (sbuf s))\<rparr>"
    by simp
  from assms(1) AwaitWindowClosing show ?thesis unfolding s' by (auto simp add: sender_inv_def)
qed (use assms(2) in simp_all)

lemma sender_inv_sendOut:
  assumes "sender_inv hdr s" "sendOut s = Some s'"
  shows "sender_inv hdr s'"
proof (cases "place s")
  case (Write b)
  with assms(2) have s': "s' = s\<lparr>out := out s @ [b], place := Select\<rparr>" by simp
  from assms(1) Write obtain ps tk p where h: "sb_defaultHeader (sbuf s) = hdr" "b = p @ hdr"
    "taken s = tk @ [p]" "subseq ps tk" "out s = map (\<lambda>p. p @ hdr) ps"
    by (auto simp add: sender_inv_def)
  then have "subseq (ps @ [p]) (taken s)" "out s @ [b] = map (\<lambda>p. p @ hdr) (ps @ [p])"
    by simp_all
  with h(1) show ?thesis unfolding s' by (auto simp add: sender_inv_def)
next
  case (WriteRST b)
  with assms(2) have s': "s' = finish (s\<lparr>out := out s @ [b]\<rparr>)" by simp
  from assms(1) WriteRST obtain ps where h: "sb_defaultHeader (sbuf s) = hdr"
    "b = withFrameType hdr frameTypeRST" "sendRST s" "subseq ps (taken s)"
    "out s = map (\<lambda>p. p @ hdr) ps"
    by (auto simp add: sender_inv_def)
  then show ?thesis unfolding s' by (intro sender_inv_finish [where ps = ps]) simp_all
qed (use assms(2) in simp_all)

lemma doSend_header:
  "doSend b dl now sel buf = (buf', r) \<Longrightarrow> sb_defaultHeader buf' = sb_defaultHeader buf"
  by (auto simp add: doSend_def split: if_splits option.splits select_send.splits)

lemma close_begin_header: "sb_defaultHeader (fst (close_begin r buf)) = sb_defaultHeader buf"
  by (simp add: close_begin_def Let_def split: option.splits)

lemma sender_inv_sbuf:
  "sender_inv hdr s \<Longrightarrow> sb_defaultHeader buf' = sb_defaultHeader (sbuf s)
     \<Longrightarrow> sender_inv hdr (s\<lparr>sbuf := buf'\<rparr>)"
  by (erule sender_inv_cong) simp_all

lemma sender_inv_step:
  assumes "sender_inv hdr s" "step a s = Some s'"
  shows "sender_inv hdr s'"
proof (cases a)
  case RecvIn
  with assms show ?thesis by (simp add: sender_inv_recvIn del: recvIn.simps)
next
  case RecvCloseRequested
  with assms show ?thesis
    by (simp add: sender_inv_recvCloseRequested del: recvCloseRequested.simps)
next
  case RecvCloseTimedOut
  with assms show ?thesis
    by (simp add: sender_inv_recvCloseTimedOut del: recvCloseTimedOut.simps)
next
  case RecvWindowAvailable
  with assms show ?thesis
    by (simp add: sender_inv_recvWindowAvailable del: recvWindowAvailable.simps)
next
  case SendOut
  with assms show ?thesis by (simp add: sender_inv_sendOut del: sendOut.simps)
next
  case Seal
  with assms(2) have "s' = s\<lparr>closer := Sealed, sbuf := (sbuf s)\<lparr>closing := True\<rparr>\<rparr>"
    by (simp split: if_splits)
  with assms(1) show ?thesis by (elim sender_inv_cong) simp_all
next
  case TimeOut
  with assms(2) have "s' = s\<lparr>closer := TimedOut\<rparr>"
    by (simp split: if_splits)
  with assms(1) show ?thesis by (elim sender_inv_cong) simp_all
next
  case TimerFire
  with assms(2) have "s' = s\<lparr>sbuf := (sbuf s)\<lparr>writeTimer := Fired\<rparr>\<rparr>"
    by (simp split: if_splits)
  with assms(1) show ?thesis by (elim sender_inv_cong) simp_all
next
  case (CallSend b dl now sel)
  with assms(2) obtain buf' r where "send b dl now sel (sbuf s) = (buf', r)"
    "s' = s\<lparr>sbuf := buf'\<rparr>"
    by (auto split: prod.splits outcome.splits)
  with assms(1) show ?thesis
    by (simp add: send_def sender_inv_sbuf doSend_header)
next
  case (CallClose r)
  with assms show ?thesis
    by (auto simp add: sender_inv_sbuf close_begin_header)
qed

lemma sender_inv_run: "sender_inv hdr s \<Longrightarrow> run as s = Some s' \<Longrightarrow> sender_inv hdr s'"
proof (induction as arbitrary: s)
  case Nil
  then show ?case by simp
next
  case (Cons a as)
  then show ?case
    by (auto simp del: step.simps split: option.splits dest: sender_inv_step)
qed

lemma sender_inv_reachable:
  "run as (newSender hdr w) = Some s \<Longrightarrow> sender_inv hdr s"
  by (rule sender_inv_run [OF sender_inv_init])

lemma sender_inv_out:
  assumes "sender_inv hdr s"
  shows "\<exists>ps. subseq ps (taken s)
     \<and> (out s = map (\<lambda>p. p @ hdr) ps
        \<or> place s = Exited \<and> sendRST s
          \<and> out s = map (\<lambda>p. p @ hdr) ps @ [withFrameType hdr frameTypeRST])"
proof (cases "place s")
  case Select
  with assms show ?thesis by (auto simp add: sender_inv_def)
next
  case (AwaitWindow p)
  with assms obtain ps tk where "taken s = tk @ [p]" "subseq ps tk"
    "out s = map (\<lambda>p. p @ hdr) ps"
    by (auto simp add: sender_inv_def)
  then have "subseq ps (taken s) \<and> out s = map (\<lambda>p. p @ hdr) ps"
    by (simp add: subseq_snoc_drop)
  then show ?thesis by blast
next
  case (AwaitWindowClosing p)
  with assms obtain ps tk where "taken s = tk @ [p]" "subseq ps tk"
    "out s = map (\<lambda>p. p @ hdr) ps"
    by (auto simp add: sender_inv_def)
  then have "subseq ps (taken s) \<and> out s = map (\<lambda>p. p @ hdr) ps"
    by (simp add: subseq_snoc_drop)
  then show ?thesis by blast
next
  case (Write b)
  with assms obtain ps tk p where "taken s = tk @ [p]" "subseq ps tk"
    "out s = map (\<lambda>p. p @ hdr) ps"
    by (auto simp add: sender_inv_def)
  then have "subseq ps (taken s) \<and> out s = map (\<lambda>p. p @ hdr) ps"
    by (simp add: subseq_snoc_drop)
  then show ?thesis by blast
next
  case (WriteRST b)
  with assms show ?thesis by (auto simp add: sender_inv_def)
next
  case Exited
  with assms show ?thesis by (auto simp add: sender_inv_def)
qed

lemma close_begin_twice:
  assumes "close_begin r buf = (buf', True)"
  shows "writeTimer buf' = Stopped \<and> snd (close_begin r' buf') = False"
proof -
  from assms have "writeTimer buf' = Stopped"
    by (cases "writeTimer buf")
      (auto simp add: close_begin_def Let_def split: option.splits)
  then show ?thesis
    by (simp add: close_begin_def Let_def split: option.splits)
qed

lemma rb_close_idem: "rb_close (rb_close buf) = rb_close buf"
  by (simp add: rb_close_def)

text \<open>
  Claim C8. On a closing buffer \<open>send\<close> returns 0 and \<open>EPIPE\<close> and leaves the buffer,
  and so the in-queue, as it is. On a buffer that is not closing, a \<open>send\<close> that returns
  without error has appended the payload to the in-queue and returns its length. With a
  zero deadline it returns so when the in-queue has room and waits when the in-queue is
  full, whatever the clock shows.
\<close>

theorem send_contract:
  "(closing buf \<longrightarrow> send b dl now sel buf = (buf, Returns (0, Some EPIPE)))
   \<and> (\<not> closing buf \<and> send b dl now sel buf = (buf', Returns (n, None)) \<longrightarrow>
        n = len b \<and> sb_in buf' = sb_in buf @ [b])
   \<and> (\<not> closing buf \<and> dl = 0 \<and> length (sb_in buf) < sb_windowSize buf \<longrightarrow>
        send b dl now sel buf = (buf\<lparr>sb_in := sb_in buf @ [b]\<rparr>, Returns (len b, None)))
   \<and> (\<not> closing buf \<and> dl = 0 \<and> sb_windowSize buf \<le> length (sb_in buf) \<longrightarrow>
        send b dl now sel buf = (buf, Blocks))"
  by (auto simp add: send_def doSend_def split: if_splits option.splits select_send.splits)

theorem send_contract_witness:
  "closing ((newSendBuffer [0, 0, 0, 7] 1)\<lparr>closing := True\<rparr>)
   \<and> send (Some [65]) 0 5 InAdmits ((newSendBuffer [0, 0, 0, 7] 1)\<lparr>closing := True\<rparr>)
       = ((newSendBuffer [0, 0, 0, 7] 1)\<lparr>closing := True\<rparr>, Returns (0, Some EPIPE))
   \<and> \<not> closing (newSendBuffer [0, 0, 0, 7] 1)
   \<and> length (sb_in (newSendBuffer [0, 0, 0, 7] 1)) < sb_windowSize (newSendBuffer [0, 0, 0, 7] 1)
   \<and> send (Some [65]) 0 5 InAdmits (newSendBuffer [0, 0, 0, 7] 1)
       = ((newSendBuffer [0, 0, 0, 7] 1)\<lparr>sb_in := [Some [65]]\<rparr>, Returns (1, None))
   \<and> send (Some [66]) 9 5 InAdmits (newSendBuffer [0, 0, 0, 7] 1)
       = ((newSendBuffer [0, 0, 0, 7] 1)\<lparr>sb_in := [Some [66]]\<rparr>, Returns (1, None))
   \<and> sb_windowSize ((newSendBuffer [0, 0, 0, 7] 1)\<lparr>sb_in := [Some [65]]\<rparr>)
       \<le> length (sb_in ((newSendBuffer [0, 0, 0, 7] 1)\<lparr>sb_in := [Some [65]]\<rparr>))
   \<and> send (Some [66]) 0 5 InAdmits ((newSendBuffer [0, 0, 0, 7] 1)\<lparr>sb_in := [Some [65]]\<rparr>)
       = ((newSendBuffer [0, 0, 0, 7] 1)\<lparr>sb_in := [Some [65]]\<rparr>, Blocks)"
proof -
  note defs = send_def doSend_def newSendBuffer_def
  from send_contract [where buf = "(newSendBuffer [0, 0, 0, 7] 1)\<lparr>closing := True\<rparr>"
      and b = "Some [65]" and dl = 0 and now = 5 and sel = InAdmits]
    send_contract [where buf = "newSendBuffer [0, 0, 0, 7] 1"
      and b = "Some [65]" and dl = 0 and now = 5 and sel = InAdmits]
    send_contract [where buf = "newSendBuffer [0, 0, 0, 7] 1"
      and b = "Some [66]" and dl = 9 and now = 5 and sel = InAdmits and n = 1
      and buf' = "(newSendBuffer [0, 0, 0, 7] 1)\<lparr>sb_in := [Some [66]]\<rparr>"]
    send_contract [where buf = "(newSendBuffer [0, 0, 0, 7] 1)\<lparr>sb_in := [Some [65]]\<rparr>"
      and b = "Some [66]" and dl = 0 and now = 5 and sel = InAdmits]
  show ?thesis
    by (simp add: defs)
qed




text \<open>
  Claim C6. The claim asks that a second \<open>close\<close> returns without waiting and changes
  nothing. For the receive buffer it does. For the send buffer, take stream 7 with a window
  of 4: \<open>close(true)\<close> stops the write timer and waits; the loop takes the request, finds
  \<open>in\<close> closed and empty, writes the RST frame and exits, so the first \<open>close\<close>
  returns. The second \<open>close(true)\<close> puts its request into the emptied channel, finds
  the timer stopped already, and waits on the timer's channel, on which nothing will come.
\<close>

theorem second_close_blocks:
  "close_begin True (newSendBuffer [0, 0, 0, 7] 4)
     = ((newSendBuffer [0, 0, 0, 7] 4)\<lparr>closeRequested := Some True, writeTimer := Stopped\<rparr>,
        True)
   \<and> run [CallClose True, RecvCloseRequested, Seal, RecvIn, SendOut] (newSender [0, 0, 0, 7] 4)
       = Some sender_closed
   \<and> place sender_closed = Exited
   \<and> closed (sbuf sender_closed) = 0
   \<and> close_begin True (sbuf sender_closed)
       = ((sbuf sender_closed)\<lparr>closeRequested := Some True\<rparr>, False)
   \<and> sb_close True (sbuf sender_closed)
       = ((sbuf sender_closed)\<lparr>closeRequested := Some True\<rparr>, Blocks)
   \<and> rb_close (rb_close rb_empty) = rb_close rb_empty"
proof (intro conjI)
  show "close_begin True (newSendBuffer [0, 0, 0, 7] 4)
     = ((newSendBuffer [0, 0, 0, 7] 4)\<lparr>closeRequested := Some True, writeTimer := Stopped\<rparr>,
        True)"
    by (simp add: close_begin_def newSendBuffer_def)
  show "run [CallClose True, RecvCloseRequested, Seal, RecvIn, SendOut] (newSender [0, 0, 0, 7] 4)
       = Some sender_closed"
    by code_simp
  show "place sender_closed = Exited" "closed (sbuf sender_closed) = 0"
    by (simp_all add: sender_closed_def)
  show "close_begin True (sbuf sender_closed)
       = ((sbuf sender_closed)\<lparr>closeRequested := Some True\<rparr>, False)"
    by (simp add: close_begin_def sender_closed_def)
  then show "sb_close True (sbuf sender_closed)
       = ((sbuf sender_closed)\<lparr>closeRequested := Some True\<rparr>, Blocks)"
    by (simp add: sb_close_def)
  show "rb_close (rb_close rb_empty) = rb_close rb_empty"
    by (rule rb_close_idem)
qed

text \<open>
  Claim C2, as stated, fails for the payload \<open>0x41\<close> on stream 7: the frame handed to
  the writer channel is the payload byte followed by the four header bytes.
\<close>

theorem data_frame_payload_first:
  "run [CallSend (Some [65]) 0 0 InAdmits, RecvIn, RecvWindowAvailable, SendOut]
       (newSender [0, 0, 0, 7] 4)
     = Some ((newSender [0, 0, 0, 7] 4)\<lparr>out := [[65, 0, 0, 0, 7]], taken := [[65]]\<rparr>)
   \<and> [65, 0, 0, 0, 7] \<noteq> [0, 0, 0, 7] @ [65 :: byte]"
proof (intro conjI)
  show "run [CallSend (Some [65]) 0 0 InAdmits, RecvIn, RecvWindowAvailable, SendOut]
       (newSender [0, 0, 0, 7] 4)
     = Some ((newSender [0, 0, 0, 7] 4)\<lparr>out := [[65, 0, 0, 0, 7]], taken := [[65]]\<rparr>)"
    by code_simp
  show "[65, 0, 0, 0, 7] \<noteq> [0, 0, 0, 7] @ [65 :: byte]"
    by simp
qed

text \<open>
  Claim C2, amended. In every state the sender reaches, the default header is the one it
  was made with, and the frames the writer channel has accepted are payloads the loop took
  from the in-queue, in the order taken and each at most once, each payload followed by
  the default header as it is (the loop does not write the type byte), with at most an RST
  frame after them. The frame the loop offers to the writer channel for the payload it
  holds is that payload followed by the default header.
\<close>

theorem data_frames_layout:
  "run as (newSender hdr w) = Some s \<longrightarrow>
     sb_defaultHeader (sbuf s) = hdr
     \<and> (\<exists>ps r. subseq ps (taken s) \<and> out s = map (\<lambda>p. p @ hdr) ps @ r
          \<and> (r = [] \<or> r = [withFrameType hdr frameTypeRST]))
     \<and> (\<forall>p. place s = AwaitWindow p \<or> place s = AwaitWindowClosing p \<longrightarrow>
          step RecvWindowAvailable s = Some (s\<lparr>place := Write (p @ hdr)\<rparr>))
     \<and> (\<forall>b. place s = Write b \<longrightarrow>
          taken s \<noteq> [] \<and> b = last (taken s) @ hdr
          \<and> step SendOut s = Some (s\<lparr>out := out s @ [b], place := Select\<rparr>))"
proof
  assume "run as (newSender hdr w) = Some s"
  then have inv: "sender_inv hdr s"
    by (rule sender_inv_reachable)
  then have h: "sb_defaultHeader (sbuf s) = hdr"
    by (simp add: sender_inv_def)
  from sender_inv_out [OF inv]
  have o: "\<exists>ps r. subseq ps (taken s) \<and> out s = map (\<lambda>p. p @ hdr) ps @ r
          \<and> (r = [] \<or> r = [withFrameType hdr frameTypeRST])"
    by (metis append_Nil2)
  have w: "\<forall>p. place s = AwaitWindow p \<or> place s = AwaitWindowClosing p \<longrightarrow>
          step RecvWindowAvailable s = Some (s\<lparr>place := Write (p @ hdr)\<rparr>)"
    using h by auto
  have "taken s \<noteq> [] \<and> b = last (taken s) @ hdr
          \<and> step SendOut s = Some (s\<lparr>out := out s @ [b], place := Select\<rparr>)"
    if "place s = Write b" for b
    using inv that by (auto simp add: sender_inv_def)
  with h o w show "sb_defaultHeader (sbuf s) = hdr
     \<and> (\<exists>ps r. subseq ps (taken s) \<and> out s = map (\<lambda>p. p @ hdr) ps @ r
          \<and> (r = [] \<or> r = [withFrameType hdr frameTypeRST]))
     \<and> (\<forall>p. place s = AwaitWindow p \<or> place s = AwaitWindowClosing p \<longrightarrow>
          step RecvWindowAvailable s = Some (s\<lparr>place := Write (p @ hdr)\<rparr>))
     \<and> (\<forall>b. place s = Write b \<longrightarrow>
          taken s \<noteq> [] \<and> b = last (taken s) @ hdr
          \<and> step SendOut s = Some (s\<lparr>out := out s @ [b], place := Select\<rparr>))"
    by blast
qed

theorem data_frames_layout_witness:
  "run [CallSend (Some [65]) 0 0 InAdmits, RecvIn, RecvWindowAvailable]
       (newSender [0, 0, 0, 7] 4)
     = Some ((newSender [0, 0, 0, 7] 4)\<lparr>place := Write [65, 0, 0, 0, 7], taken := [[65]]\<rparr>)
   \<and> step SendOut ((newSender [0, 0, 0, 7] 4)\<lparr>place := Write [65, 0, 0, 0, 7], taken := [[65]]\<rparr>)
     = Some ((newSender [0, 0, 0, 7] 4)\<lparr>out := [[65, 0, 0, 0, 7]], taken := [[65]]\<rparr>)
   \<and> run [CallSend (Some [65]) 0 0 InAdmits, RecvIn] (newSender [0, 0, 0, 7] 4)
     = Some ((newSender [0, 0, 0, 7] 4)\<lparr>place := AwaitWindow [65], taken := [[65]]\<rparr>)
   \<and> step RecvWindowAvailable
       ((newSender [0, 0, 0, 7] 4)\<lparr>place := AwaitWindow [65], taken := [[65]]\<rparr>)
     = Some ((newSender [0, 0, 0, 7] 4)\<lparr>place := Write [65, 0, 0, 0, 7], taken := [[65]]\<rparr>)"
proof -
  have r1: "run [CallSend (Some [65]) 0 0 InAdmits, RecvIn, RecvWindowAvailable]
       (newSender [0, 0, 0, 7] 4)
     = Some ((newSender [0, 0, 0, 7] 4)\<lparr>place := Write [65, 0, 0, 0, 7], taken := [[65]]\<rparr>)"
    by code_simp
  have r2: "run [CallSend (Some [65]) 0 0 InAdmits, RecvIn] (newSender [0, 0, 0, 7] 4)
     = Some ((newSender [0, 0, 0, 7] 4)\<lparr>place := AwaitWindow [65], taken := [[65]]\<rparr>)"
    by code_simp
  from data_frames_layout [where as = "[CallSend (Some [65]) 0 0 InAdmits, RecvIn, RecvWindowAvailable]"
      and hdr = "[0, 0, 0, 7]" and w = 4
      and s = "(newSender [0, 0, 0, 7] 4)\<lparr>place := Write [65, 0, 0, 0, 7], taken := [[65]]\<rparr>"]
    data_frames_layout [where as = "[CallSend (Some [65]) 0 0 InAdmits, RecvIn]"
      and hdr = "[0, 0, 0, 7]" and w = 4
      and s = "(newSender [0, 0, 0, 7] 4)\<lparr>place := AwaitWindow [65], taken := [[65]]\<rparr>"]
  show ?thesis
    using r1 r2 by (simp add: newSender_def newSendBuffer_def)
qed




end
